theory Spec2Isabelle
  imports Complex_Main "HOL-Library.Multiset"
begin

section \<open>Performance metrics (\<open>APITestUtils.createPerformanceMetrics\<close>)\<close>

text \<open>
  The samples are response times in milliseconds, differences of two \<open>Date.now()\<close>
  readings, hence integers; each is read as the JavaScript number of that value. Reading
  an array outside its bounds yields \<open>undefined\<close> (modelled as \<open>None\<close>).

  JavaScript numbers are IEEE 754 doubles. A finite double is modelled by its rational
  value (the two zeros are one value: integer samples never produce a negative zero
  here). The result of \<open>+\<close> or \<open>/\<close> on finite numbers is the exact result rounded to
  the nearest double, ties to the even significand, and to an infinity from
  \<open>2\<^sup>1\<^sup>0\<^sup>2\<^sup>4 - 2\<^sup>9\<^sup>7\<^sup>0\<close> on.
\<close>

datatype jsnum = Num rat | NaN | PosInfinity | NegInfinity

text \<open>\<open>bits n\<close> is the length of the binary numeral of \<open>n > 0\<close>.\<close>

function bits :: "int \<Rightarrow> int" where
  "bits n = (if n \<le> 0 then 0 else bits (n div 2) + 1)"
  by pat_completeness auto
termination
  by (relation "measure nat") auto

declare bits.simps [simp del]

text \<open>
  For \<open>p, q > 0\<close>: \<open>exponent p q\<close> is the \<open>e\<close> with \<open>2\<^sup>e \<le> p / q < 2\<^sup>e\<^sup>+\<^sup>1\<close>;
  \<open>round_half_even n d\<close> is the integer nearest to \<open>n / d\<close>, the even one of two equally
  near; \<open>round_magnitude p q\<close> is \<open>p / q\<close> rounded to a multiple of \<open>2\<^sup>u\<close>, where
  \<open>u\<close> is the exponent of the last of the 53 bits of the significand (\<open>- 1074\<close> for a
  subnormal number), or \<open>None\<close> when that is \<open>2\<^sup>1\<^sup>0\<^sup>2\<^sup>4\<close> or more.
\<close>

definition exponent :: "int \<Rightarrow> int \<Rightarrow> int" where
  "exponent p q = (if q \<le> p then bits (p div q) - 1 else - bits ((q - 1) div p))"

definition round_half_even :: "int \<Rightarrow> int \<Rightarrow> int" where
  "round_half_even n d =
     (let f = n div d; r = n mod d
      in if 2 * r < d then f
         else if d < 2 * r then f + 1
         else if even f then f else f + 1)"

definition round_magnitude :: "int \<Rightarrow> int \<Rightarrow> rat option" where
  "round_magnitude p q =
     (let u = max (exponent p q) (- 1022) - 52;
          m = (if 0 \<le> u then round_half_even p (q * 2 ^ nat u)
               else round_half_even (p * 2 ^ nat (- u)) q)
      in if 0 \<le> u \<and> 2 ^ 1024 \<le> m * 2 ^ nat u then None
         else Some (if 0 \<le> u then of_int (m * 2 ^ nat u)
                    else of_int m / of_int (2 ^ nat (- u))))"

definition round_to_double :: "rat \<Rightarrow> jsnum" where
  "round_to_double x =
     (let (p, q) = quotient_of x
      in if p = 0 then Num 0
         else if 0 < p then
           (case round_magnitude p q of None \<Rightarrow> PosInfinity | Some v \<Rightarrow> Num v)
         else
           (case round_magnitude (- p) q of None \<Rightarrow> NegInfinity | Some v \<Rightarrow> Num (- v)))"

fun js_add :: "jsnum \<Rightarrow> jsnum \<Rightarrow> jsnum" where
  "js_add (Num a) (Num b) = round_to_double (a + b)"
| "js_add NaN y = NaN"
| "js_add x NaN = NaN"
| "js_add PosInfinity NegInfinity = NaN"
| "js_add NegInfinity PosInfinity = NaN"
| "js_add PosInfinity y = PosInfinity"
| "js_add NegInfinity y = NegInfinity"
| "js_add x PosInfinity = PosInfinity"
| "js_add x NegInfinity = NegInfinity"

text \<open>A zero divisor is the positive zero: the only divisor below is an array length.\<close>

fun js_div :: "jsnum \<Rightarrow> jsnum \<Rightarrow> jsnum" where
  "js_div (Num a) (Num b) =
     (if b \<noteq> 0 then round_to_double (a / b)
      else if a = 0 then NaN
      else if 0 < a then PosInfinity else NegInfinity)"
| "js_div NaN y = NaN"
| "js_div x NaN = NaN"
| "js_div (Num a) y = Num 0"
| "js_div PosInfinity (Num b) = (if 0 \<le> b then PosInfinity else NegInfinity)"
| "js_div NegInfinity (Num b) = (if 0 \<le> b then NegInfinity else PosInfinity)"
| "js_div x y = NaN"

definition index :: "'a list \<Rightarrow> int \<Rightarrow> 'a option" where
  "index xs i = (if 0 \<le> i \<and> i < int (length xs) then Some (xs ! nat i) else None)"

record metrics =
  min_val :: "int option"
  max_val :: "int option"
  avg :: jsnum
  median :: "int option"

text \<open>
  \<^verbatim>\<open>const sorted = responseTimes.sort((a, b) => a - b);\<close>
  \<open>Array.prototype.sort\<close> sorts the array in place and returns that same array, so
  after this line \<open>sorted\<close> and \<open>responseTimes\<close> are one object. The model returns the
  summary together with the content of the caller's array after the call.
  \<open>reduce((acc, val) => acc + val, 0)\<close> adds the samples from the left, each addition
  rounded.
\<close>

definition createPerformanceMetrics :: "int list \<Rightarrow> metrics \<times> int list" where
  "createPerformanceMetrics responseTimes =
     (let sorted = sort responseTimes;
          responseTimes' = sorted;
          sum = foldl (\<lambda>acc val. js_add acc (Num (of_int val))) (Num 0) responseTimes'
      in (\<lparr> min_val = index sorted 0,
            max_val = index sorted (int (length sorted) - 1),
            avg = js_div sum (Num (of_nat (length responseTimes'))),
            median = index sorted (int (length sorted) div 2) \<rparr>,
          responseTimes'))"


section \<open>Thrown values and asynchronous actions\<close>

text \<open>
  A JavaScript \<open>throw\<close> carries any value. The helpers below tell three kinds apart:
  the value \<open>undefined\<close>, an \<open>Error\<close> object with its message, and any other value.

  An asynchronous action (\<open>() => Promise<T>\<close>) is run against the world \<open>'w\<close> (the
  service under test, the clock, whatever the action reads or changes): it either
  resolves to a value (\<open>Inr\<close>) or rejects with a thrown value (\<open>Inl\<close>) and leaves a
  new world. Suspending on a timer is a world transformer \<open>sleep ms\<close>, supplied by the
  environment.
\<close>

datatype 'x thrown = Undefined | Error string | Other 'x

type_synonym ('w, 'x, 'a) action = "'w \<Rightarrow> ('x thrown + 'a) \<times> 'w"

subsection \<open>Numbers in template strings\<close>

text \<open>
  Decimal printing of an integer, as a template string (or the conversion of a number to
  a string) prints an integral number of magnitude below \<open>10\<^sup>2\<^sup>1\<close>.
\<close>

definition digit :: "nat \<Rightarrow> char" where
  "digit n = ''0123456789'' ! n"

fun string_of_nat :: "nat \<Rightarrow> string" where
  "string_of_nat n =
     (if n < 10 then [digit n] else string_of_nat (n div 10) @ [digit (n mod 10)])"

declare string_of_nat.simps [simp del]

definition string_of_int :: "int \<Rightarrow> string" where
  "string_of_int i =
     (if i < 0 then CHR ''-'' # string_of_nat (nat (- i)) else string_of_nat (nat i))"

section \<open>Retry (\<open>TestHelpers.retry\<close>)\<close>

text \<open>
  \<^verbatim>\<open>
  let lastError: Error | undefined;
  for (let attempt = 1; attempt <= maxAttempts; attempt++) {
    try { return await action(); }
    catch (error) {
      lastError = error as Error;
      if (attempt < maxAttempts) { await this.sleep(delayMs); }
    }
  }
  throw lastError;
  \<close>
  The loop is a recursion on \<open>attempt\<close>. The result is the outcome, the number of times
  the action was invoked (a counter kept by the model) and the world left behind.
  \<open>maxAttempts\<close> and \<open>delayMs\<close> are integers; a call that omits them passes the
  defaults 3 and 1000.
\<close>

function retry_loop ::
  "(int \<Rightarrow> 'w \<Rightarrow> 'w) \<Rightarrow> ('w, 'x, 'a) action \<Rightarrow> int \<Rightarrow> int \<Rightarrow> int \<Rightarrow> 'x thrown \<Rightarrow> nat \<Rightarrow> 'w
     \<Rightarrow> ('x thrown + 'a) \<times> nat \<times> 'w" where
  "retry_loop sleep action maxAttempts delayMs attempt lastError calls w =
     (if attempt \<le> maxAttempts then
        (case action w of
           (Inr v, w1) \<Rightarrow> (Inr v, Suc calls, w1)
         | (Inl error, w1) \<Rightarrow>
             retry_loop sleep action maxAttempts delayMs (attempt + 1) error (Suc calls)
               (if attempt < maxAttempts then sleep delayMs w1 else w1))
      else (Inl lastError, calls, w))"
  by pat_completeness auto
termination
  by (relation "measure (\<lambda>(sleep, action, maxAttempts, delayMs, attempt, lastError, calls, w).
                  nat (maxAttempts + 1 - attempt))") auto

declare retry_loop.simps [simp del]

definition retry ::
  "(int \<Rightarrow> 'w \<Rightarrow> 'w) \<Rightarrow> ('w, 'x, 'a) action \<Rightarrow> int \<Rightarrow> int \<Rightarrow> 'w \<Rightarrow> ('x thrown + 'a) \<times> nat \<times> 'w" where
  "retry sleep action maxAttempts delayMs w =
     retry_loop sleep action maxAttempts delayMs 1 Undefined 0 w"

text \<open>
  \<open>fails_first sleep action delayMs k w\<close> is the world in which attempt \<open>k + 1\<close> starts,
  provided the action rejected on each of the first \<open>k\<close> invocations, with the delay
  slept after each of them; \<open>None\<close> if one of those invocations resolved.
\<close>

fun fails_first :: "(int \<Rightarrow> 'w \<Rightarrow> 'w) \<Rightarrow> ('w, 'x, 'a) action \<Rightarrow> int \<Rightarrow> nat \<Rightarrow> 'w \<Rightarrow> 'w option" where
  "fails_first sleep action delayMs 0 w = Some w"
| "fails_first sleep action delayMs (Suc k) w =
     (case action w of
        (Inl error, w1) \<Rightarrow> fails_first sleep action delayMs k (sleep delayMs w1)
      | (Inr v, w1) \<Rightarrow> None)"

section \<open>Polling (\<open>APITestUtils.waitForCondition\<close>)\<close>

text \<open>
  \<^verbatim>\<open>
  const startTime = Date.now();
  while (Date.now() - startTime < timeout) {
    if (await condition()) { return; }
    await new Promise(resolve => setTimeout(resolve, interval));
  }
  throw new Error(`Condition not met within ${timeout}ms`);
  \<close>
  \<open>now\<close> reads the clock of the world. Nothing bounds the number of rounds when the clock
  does not advance, so the loop takes fuel: \<open>None\<close> means that the fuel ran out before
  the call returned or threw. There is no \<open>try\<close> around \<open>condition()\<close>. A call that
  omits \<open>timeout\<close> and \<open>interval\<close> passes the defaults 10000 and 500.
\<close>

fun waitForCondition_loop ::
  "nat \<Rightarrow> ('w \<Rightarrow> int) \<Rightarrow> (int \<Rightarrow> 'w \<Rightarrow> 'w) \<Rightarrow> ('w, 'x, bool) action \<Rightarrow> int \<Rightarrow> int \<Rightarrow> int \<Rightarrow> 'w
     \<Rightarrow> (('x thrown + unit) \<times> 'w) option" where
  "waitForCondition_loop 0 now sleep condition timeout interval startTime w = None"
| "waitForCondition_loop (Suc fuel) now sleep condition timeout interval startTime w =
     (if now w - startTime < timeout then
        (case condition w of
           (Inl error, w1) \<Rightarrow> Some (Inl error, w1)
         | (Inr True, w1) \<Rightarrow> Some (Inr (), w1)
         | (Inr False, w1) \<Rightarrow>
             waitForCondition_loop fuel now sleep condition timeout interval startTime
               (sleep interval w1))
      else Some (Inl (Error (''Condition not met within '' @ string_of_int timeout @ ''ms'')), w))"

definition waitForCondition ::
  "nat \<Rightarrow> ('w \<Rightarrow> int) \<Rightarrow> (int \<Rightarrow> 'w \<Rightarrow> 'w) \<Rightarrow> ('w, 'x, bool) action \<Rightarrow> int \<Rightarrow> int \<Rightarrow> 'w
     \<Rightarrow> (('x thrown + unit) \<times> 'w) option" where
  "waitForCondition fuel now sleep condition timeout interval w =
     (let startTime = now w
      in waitForCondition_loop fuel now sleep condition timeout interval startTime w)"

text \<open>
  \<open>polls_false now sleep condition timeout interval startTime k w\<close> is the world in which
  round \<open>k + 1\<close> of the loop starts, provided each of the first \<open>k\<close> rounds found the
  timeout not elapsed and the condition resolving to \<open>false\<close>; \<open>None\<close> otherwise.
\<close>

fun polls_false ::
  "('w \<Rightarrow> int) \<Rightarrow> (int \<Rightarrow> 'w \<Rightarrow> 'w) \<Rightarrow> ('w, 'x, bool) action \<Rightarrow> int \<Rightarrow> int \<Rightarrow> int \<Rightarrow> nat \<Rightarrow> 'w
     \<Rightarrow> 'w option" where
  "polls_false now sleep condition timeout interval startTime 0 w = Some w"
| "polls_false now sleep condition timeout interval startTime (Suc k) w =
     (if now w - startTime < timeout then
        (case condition w of
           (Inr False, w1) \<Rightarrow>
             polls_false now sleep condition timeout interval startTime k (sleep interval w1)
         | (Inr True, w1) \<Rightarrow> None
         | (Inl error, w1) \<Rightarrow> None)
      else None)"

section \<open>Structure validation (\<open>APITestUtils.validateJSONStructure\<close>)\<close>

text \<open>
  \<^verbatim>\<open>
  const body = await response.json();
  for (const key of expectedKeys) {
    expect(body, `Missing key: ${key}`).toHaveProperty(key);
  }
  \<close>
  \<open>expect\<close> and \<open>response.json()\<close> belong to the test runner and are parameters.
  \<open>json\<close> resolves to the parsed body or rejects. \<open>toHaveProperty body key\<close> is what
  the matcher finds: the body has the property (\<open>Has\<close>), the body lacks it
  (\<open>Lacks\<close>), on which \<open>expect\<close> throws an \<open>Error\<close> whose message begins with the
  message given to it (the model keeps that part), or the matcher cannot be applied to
  the body at all, as for a body that is \<open>null\<close> (\<open>Unusable\<close>), on which it throws an
  error of its own that does not carry that message.
\<close>

datatype 'x matched = Has | Lacks | Unusable "'x thrown"

fun validateJSONStructure_loop ::
  "('b \<Rightarrow> string \<Rightarrow> 'x matched) \<Rightarrow> 'b \<Rightarrow> string list \<Rightarrow> 'x thrown + unit" where
  "validateJSONStructure_loop toHaveProperty body [] = Inr ()"
| "validateJSONStructure_loop toHaveProperty body (key # keys) =
     (case toHaveProperty body key of
        Has \<Rightarrow> validateJSONStructure_loop toHaveProperty body keys
      | Lacks \<Rightarrow> Inl (Error (''Missing key: '' @ key))
      | Unusable error \<Rightarrow> Inl error)"

definition validateJSONStructure ::
  "('r \<Rightarrow> 'x thrown + 'b) \<Rightarrow> ('b \<Rightarrow> string \<Rightarrow> 'x matched) \<Rightarrow> 'r \<Rightarrow> string list
     \<Rightarrow> 'x thrown + unit" where
  "validateJSONStructure json toHaveProperty response expectedKeys =
     (case json response of
        Inl error \<Rightarrow> Inl error
      | Inr body \<Rightarrow> validateJSONStructure_loop toHaveProperty body expectedKeys)"

text \<open>What the check of one key throws when it does not find the property.\<close>

fun check_failure :: "string \<Rightarrow> 'x matched \<Rightarrow> 'x thrown + unit" where
  "check_failure key Has = Inr ()"
| "check_failure key Lacks = Inl (Error (''Missing key: '' @ key))"
| "check_failure key (Unusable error) = Inl error"

section \<open>URL construction (\<open>BaseAPIClient.buildURL\<close>)\<close>

subsection \<open>The platform's \<open>URLSearchParams\<close>\<close>

text \<open>
  \<open>new URLSearchParams(params).toString()\<close> is the platform's
  \<open>application/x-www-form-urlencoded\<close> serializer (URL standard) applied to the own
  properties of the record, in property enumeration order, each value converted to a
  string; names and values are percent-encoded byte by byte, leaving ASCII letters,
  digits and \<open>* - . _\<close>, writing a space as \<open>+\<close>; the pairs \<open>name=value\<close> are joined
  with \<open>&\<close>. A string is its UTF-8 bytes.

  A record is given by the property assignments that built it, in the order they were
  made (an object literal makes them in source order): assigning a key the record has
  keeps the key's place and replaces its value. The enumeration order of a record is:
  the keys that are array indices (the decimal numeral, without leading zeros, of a
  number below \<open>2\<^sup>3\<^sup>2 - 1\<close>) in ascending numeric order, then the other keys in the
  order they were first assigned.
\<close>

fun set_property :: "(string \<times> 'v) list \<Rightarrow> string \<Rightarrow> 'v \<Rightarrow> (string \<times> 'v) list" where
  "set_property [] key value = [(key, value)]"
| "set_property ((k, v) # props) key value =
     (if k = key then (k, value) # props else (k, v) # set_property props key value)"

definition object_of :: "(string \<times> 'v) list \<Rightarrow> (string \<times> 'v) list" where
  "object_of assignments = foldl (\<lambda>obj (key, value). set_property obj key value) [] assignments"

definition index_value :: "string \<Rightarrow> nat" where
  "index_value key = foldl (\<lambda>n c. 10 * n + (of_char c - 48)) 0 key"

definition is_array_index :: "string \<Rightarrow> bool" where
  "is_array_index key \<longleftrightarrow>
     key \<noteq> [] \<and> list_all (\<lambda>c. c \<in> set ''0123456789'') key
     \<and> (key = ''0'' \<or> hd key \<noteq> CHR ''0'') \<and> index_value key < 4294967295"

definition own_entries :: "(string \<times> 'v) list \<Rightarrow> (string \<times> 'v) list" where
  "own_entries obj =
     sort_key (\<lambda>entry. index_value (fst entry)) (filter (\<lambda>entry. is_array_index (fst entry)) obj)
       @ filter (\<lambda>entry. \<not> is_array_index (fst entry)) obj"

datatype pvalue = PNum int | PStr string

fun ToString :: "pvalue \<Rightarrow> string" where
  "ToString (PNum n) = string_of_int n"
| "ToString (PStr s) = s"

definition unreserved :: "char \<Rightarrow> bool" where
  "unreserved c \<longleftrightarrow>
     c \<in> set ''ABCDEFGHIJKLMNOPQRSTUVWXYZabcdefghijklmnopqrstuvwxyz0123456789*-._''"

definition hex_digit :: "nat \<Rightarrow> char" where
  "hex_digit n = ''0123456789ABCDEF'' ! n"

definition urlencode_byte :: "char \<Rightarrow> string" where
  "urlencode_byte c =
     (if c = CHR '' '' then ''+''
      else if unreserved c then [c]
      else [CHR ''%'', hex_digit (of_char c div 16), hex_digit (of_char c mod 16)])"

definition urlencode :: "string \<Rightarrow> string" where
  "urlencode s = concat (map urlencode_byte s)"

definition serialize_step :: "string \<Rightarrow> string \<times> string \<Rightarrow> string" where
  "serialize_step output tuple =
     (let name = urlencode (fst tuple);
          value = urlencode (snd tuple)
      in (if output \<noteq> [] then output @ ''&'' else output) @ name @ ''='' @ value)"

definition urlencoded_serialize :: "(string \<times> string) list \<Rightarrow> string" where
  "urlencoded_serialize tuples = foldl serialize_step [] tuples"

definition URLSearchParams_toString :: "(string \<times> pvalue) list \<Rightarrow> string" where
  "URLSearchParams_toString params =
     urlencoded_serialize
       (map (\<lambda>(key, value). (key, ToString value)) (own_entries (object_of params)))"

subsection \<open>\<open>buildURL\<close> and a client call\<close>

text \<open>
  \<^verbatim>\<open>
  let url = `${this.baseURL}${endpoint}`;
  if (params) {
    const queryString = new URLSearchParams(params).toString();
    url += `?${queryString}`;
  }
  return url;
  \<close>
  \<open>params\<close> is a record or \<open>undefined\<close> (\<open>None\<close>); every record is truthy, the empty
  one too.
\<close>

definition buildURL :: "string \<Rightarrow> string \<Rightarrow> (string \<times> pvalue) list option \<Rightarrow> string" where
  "buildURL baseURL endpoint params =
     (let url = baseURL @ endpoint
      in case params of
           None \<Rightarrow> url
         | Some ps \<Rightarrow> (let queryString = URLSearchParams_toString ps in url @ ''?'' @ queryString))"

text \<open>
  \<open>ProductsAPI.getAllProducts\<close> calls
  \<open>this.get('/index.php?route=api/product', { params: { limit: params?.limit || 20,
  start: params?.offset || 0, sort: params?.sort || 'p.sort_order',
  order: params?.order || 'asc' } })\<close>, and \<open>get\<close> requests
  \<open>buildURL(endpoint, options?.params)\<close>. \<open>x || d\<close> is \<open>d\<close> when \<open>x\<close> is
  \<open>undefined\<close>, \<open>0\<close> or the empty string. \<open>getAllProducts_url\<close> is the URL the call
  requests; its logging is left out.
\<close>

datatype sort_order = asc | desc

record products_params =
  p_limit :: "int option"
  p_offset :: "int option"
  p_sort :: "string option"
  p_order :: "sort_order option"

definition num_or :: "int option \<Rightarrow> int \<Rightarrow> int" where
  "num_or x d = (case x of None \<Rightarrow> d | Some n \<Rightarrow> if n = 0 then d else n)"

definition str_or :: "string option \<Rightarrow> string \<Rightarrow> string" where
  "str_or x d = (case x of None \<Rightarrow> d | Some s \<Rightarrow> if s = [] then d else s)"

fun order_string :: "sort_order \<Rightarrow> string" where
  "order_string asc = ''asc''"
| "order_string desc = ''desc''"

definition getAllProducts_url :: "string \<Rightarrow> products_params option \<Rightarrow> string" where
  "getAllProducts_url baseURL params =
     buildURL baseURL ''/index.php?route=api/product''
       (Some [(''limit'', PNum (num_or (Option.bind params p_limit) 20)),
              (''start'', PNum (num_or (Option.bind params p_offset) 0)),
              (''sort'', PStr (str_or (Option.bind params p_sort) ''p.sort_order'')),
              (''order'', PStr (str_or (map_option order_string (Option.bind params p_order)) ''asc''))])"

section \<open>Notions used in the statements\<close>

text \<open>
  The entries of a record as the serializer sees them (in enumeration order, each value
  converted to a string), one encoded pair \<open>name=value\<close>, the pairs after the first (each led by
  \<open>&\<close>), and the characters the percent-encoding can emit.
\<close>

definition string_entries :: "(string \<times> pvalue) list \<Rightarrow> (string \<times> string) list" where
  "string_entries params =
     map (\<lambda>(key, value). (key, ToString value)) (own_entries (object_of params))"

definition encode_tuple :: "string \<times> string \<Rightarrow> string" where
  "encode_tuple t = urlencode (fst t) @ ''='' @ urlencode (snd t)"

definition more_tuples :: "(string \<times> string) list \<Rightarrow> string" where
  "more_tuples ts = concat (map (\<lambda>t. ''&'' @ encode_tuple t) ts)"

definition encoded_chars :: "char set" where
  "encoded_chars =
     set ''ABCDEFGHIJKLMNOPQRSTUVWXYZabcdefghijklmnopqrstuvwxyz0123456789*-._+%''"

subsection \<open>A sample world\<close>

text \<open>
  A small world for concrete runs: the number of invocations the service has seen and the
  clock in milliseconds. A timer advances the clock by its delay. \<open>flaky k\<close> rejects on
  its first \<open>k\<close> invocations, with \<open>Other n\<close> on invocation \<open>n + 1\<close>, and resolves
  afterwards; \<open>never_ready\<close> always resolves to \<open>false\<close>; \<open>broken_probe k\<close> resolves to
  \<open>false\<close> \<open>k\<close> times and rejects afterwards.
\<close>

definition timer_sleep :: "int \<Rightarrow> nat \<times> int \<Rightarrow> nat \<times> int" where
  "timer_sleep ms w = (fst w, snd w + ms)"

definition clock :: "nat \<times> int \<Rightarrow> int" where
  "clock w = snd w"

definition flaky :: "nat \<Rightarrow> (nat \<times> int, nat, string) action" where
  "flaky k w =
     (if fst w < k then (Inl (Other (fst w)), (Suc (fst w), snd w))
      else (Inr ''ok'', (Suc (fst w), snd w)))"

definition never_ready :: "(nat \<times> int, nat, bool) action" where
  "never_ready w = (Inr False, (Suc (fst w), snd w))"

definition broken_probe :: "nat \<Rightarrow> (nat \<times> int, nat, bool) action" where
  "broken_probe k w =
     (if fst w < k then (Inr False, (Suc (fst w), snd w))
      else (Inl (Error ''socket hang up''), (Suc (fst w), snd w)))"

section \<open>Properties of the performance metrics\<close>

subsection \<open>Auxiliary facts\<close>

lemma index_nat: "index xs (int n) = (if n < length xs then Some (xs ! n) else None)"
  by (simp add: index_def)

lemma half_int: "int n div 2 = int (n div 2)"
  by simp

lemma sort_Nil_iff: "sort xs = [] \<longleftrightarrow> xs = []"
  using length_sort [of "\<lambda>x. x" xs] by (metis length_0_conv)

lemma median_nonempty:
  "xs \<noteq> [] \<Longrightarrow> median (fst (createPerformanceMetrics xs)) = Some (sort xs ! (length xs div 2))"
  by (simp add: createPerformanceMetrics_def Let_def half_int index_nat del: of_nat_div)

lemma lower_middle_le_upper_middle:
  "xs \<noteq> [] \<Longrightarrow> sort xs ! (length xs div 2 - 1) \<le> sort xs ! (length xs div 2)"
  by (rule sorted_nth_mono) (simp_all add: sort_Nil_iff)

lemma metrics_1234:
  "fst (createPerformanceMetrics [1, 2, 3, 4]) =
       \<lparr> min_val = Some 1, max_val = Some 4, avg = Num (5 / 2), median = Some 3 \<rparr>"
  by code_simp

lemma metrics_5:
  "fst (createPerformanceMetrics [5]) =
       \<lparr> min_val = Some 5, max_val = Some 5, avg = Num 5, median = Some 5 \<rparr>"
  by code_simp

subsection \<open>The empty sample set\<close>

text \<open>
  C1 (as the code has it). For the empty sequence \<open>createPerformanceMetrics\<close> raises
  nothing: it returns a summary whose \<open>min\<close>, \<open>max\<close> and \<open>median\<close> are
  \<open>undefined\<close> and whose \<open>avg\<close> is \<open>0 / 0 = NaN\<close>, and the caller's array stays
  empty.
\<close>

theorem createPerformanceMetrics_empty:
  "createPerformanceMetrics [] =
     (\<lparr> min_val = None, max_val = None, avg = NaN, median = None \<rparr>, [])"
  by (simp add: createPerformanceMetrics_def index_def)

text \<open>
  C1 (as the spec has it) fails: on the empty sequence the call returns, and the summary
  it returns holds \<open>NaN\<close>.
\<close>

theorem createPerformanceMetrics_empty_returns_NaN:
  "avg (fst (createPerformanceMetrics [])) = NaN"
  by (simp add: createPerformanceMetrics_def)

subsection \<open>The median\<close>

text \<open>
  C6 (as the code has it). The median is the element at index \<open>\<lfloor>n / 2\<rfloor>\<close> of the
  samples sorted ascending. For an even length that is the upper of the two middle
  elements (the lower one sits at index \<open>n / 2 - 1\<close> and is not larger). So
  \<open>[1, 2, 3, 4]\<close> has min 1, max 4, mean 2.5 and median 3, and \<open>[5]\<close> has min, max,
  mean and median 5.
\<close>

theorem createPerformanceMetrics_median_upper_middle:
  "(xs \<noteq> [] \<and> even (length xs) \<longrightarrow>
      median (fst (createPerformanceMetrics xs)) = Some (sort xs ! (length xs div 2))
      \<and> sort xs ! (length xs div 2 - 1) \<le> sort xs ! (length xs div 2))
   \<and> fst (createPerformanceMetrics [1, 2, 3, 4]) =
       \<lparr> min_val = Some 1, max_val = Some 4, avg = Num (5 / 2), median = Some 3 \<rparr>
   \<and> fst (createPerformanceMetrics [5]) =
       \<lparr> min_val = Some 5, max_val = Some 5, avg = Num 5, median = Some 5 \<rparr>"
proof (intro conjI impI)
  assume "xs \<noteq> [] \<and> even (length xs)"
  then show "median (fst (createPerformanceMetrics xs)) = Some (sort xs ! (length xs div 2))"
    by (simp add: median_nonempty)
next
  assume "xs \<noteq> [] \<and> even (length xs)"
  then have "xs \<noteq> []" by simp
  then show "sort xs ! (length xs div 2 - 1) \<le> sort xs ! (length xs div 2)"
    by (rule lower_middle_le_upper_middle)
next
  show "fst (createPerformanceMetrics [1, 2, 3, 4]) =
       \<lparr> min_val = Some 1, max_val = Some 4, avg = Num (5 / 2), median = Some 3 \<rparr>"
    by (rule metrics_1234)
next
  show "fst (createPerformanceMetrics [5]) =
       \<lparr> min_val = Some 5, max_val = Some 5, avg = Num 5, median = Some 5 \<rparr>"
    by (rule metrics_5)
qed

text \<open>An instance of C6 (as the code has it): four samples out of order.\<close>

theorem createPerformanceMetrics_median_upper_middle_witness:
  "[40, 10, 30, 20] \<noteq> ([] :: int list) \<and> even (length [40, 10, 30, 20 :: int])
   \<and> median (fst (createPerformanceMetrics [40, 10, 30, 20])) = Some 30
   \<and> sort [40, 10, 30, 20 :: int] ! 1 = 20"
  using createPerformanceMetrics_median_upper_middle [of "[40, 10, 30, 20]"] by simp

text \<open>
  C6 (as the spec has it) fails at \<open>[1, 2, 3, 4]\<close>: the median returned is not the
  lower-middle element 2.
\<close>

theorem createPerformanceMetrics_median_not_lower_middle:
  "median (fst (createPerformanceMetrics [1, 2, 3, 4])) \<noteq> Some 2"
  by (simp add: createPerformanceMetrics_def index_def Let_def)

subsection \<open>The caller's array\<close>

text \<open>
  C7 (as the code has it). The sort is in place: after the call the caller's array holds
  the same samples (as a multiset) in ascending order. It is unchanged exactly when it
  was sorted already.
\<close>

theorem createPerformanceMetrics_sorts_in_place:
  "snd (createPerformanceMetrics xs) = sort xs
   \<and> mset (snd (createPerformanceMetrics xs)) = mset xs
   \<and> sorted (snd (createPerformanceMetrics xs))
   \<and> (snd (createPerformanceMetrics xs) = xs \<longleftrightarrow> sorted xs)"
proof -
  have s: "snd (createPerformanceMetrics xs) = sort xs"
    by (simp add: createPerformanceMetrics_def Let_def)
  have "sort xs = xs \<longleftrightarrow> sorted xs"
    by (metis sorted_sort sorted_sort_id)
  with s show ?thesis by simp
qed

text \<open>
  C7 (as the spec has it) fails at \<open>[3, 1, 2]\<close>: the caller's array is reordered.
\<close>

theorem createPerformanceMetrics_mutates_input:
  "snd (createPerformanceMetrics [3, 1, 2]) \<noteq> [3, 1, 2]"
  by (simp add: createPerformanceMetrics_def Let_def)

section \<open>Properties of retry\<close>

subsection \<open>Auxiliary facts\<close>

lemma retry_loop_calls_le:
  "fst (snd (retry_loop sleep action N d attempt le calls w)) \<le> calls + nat (N + 1 - attempt)"
proof (induction sleep action N d attempt le calls w rule: retry_loop.induct)
  case (1 sleep action maxAttempts delayMs attempt lastError calls w)
  show ?case
  proof (cases "attempt \<le> maxAttempts")
    case False
    then show ?thesis by (simp add: retry_loop.simps)
  next
    case True
    obtain r w1 where a: "action w = (r, w1)" by (cases "action w")
    show ?thesis
    proof (cases r)
      case (Inr v)
      with True a show ?thesis
        by (subst retry_loop.simps) simp
    next
      case (Inl e)
      from "1.IH" [OF True a [symmetric] Inl] True a Inl show ?thesis
        by (subst retry_loop.simps) (simp add: nat_add_distrib)
    qed
  qed
qed

lemma retry_loop_succeeds_after:
  "fails_first sleep action d k w = Some wk \<Longrightarrow> action wk = (Inr v, w') \<Longrightarrow> attempt + int k \<le> N
   \<Longrightarrow> retry_loop sleep action N d attempt le calls w = (Inr v, Suc (calls + k), w')"
proof (induction k arbitrary: attempt le calls w)
  case 0
  then show ?case by (subst retry_loop.simps) simp
next
  case (Suc k)
  from Suc.prems(1) obtain e w1 where a: "action w = (Inl e, w1)"
    and f: "fails_first sleep action d k (sleep d w1) = Some wk"
    by (auto split: prod.splits sum.splits)
  from Suc.prems(3) have lt: "attempt < N" and le': "(attempt + 1) + int k \<le> N" by simp_all
  have "retry_loop sleep action N d attempt le calls w
        = retry_loop sleep action N d (attempt + 1) e (Suc calls) (sleep d w1)"
    using a lt by (subst retry_loop.simps) simp
  also have "\<dots> = (Inr v, Suc (Suc calls + k), w')"
    by (rule Suc.IH [OF f Suc.prems(2) le'])
  finally show ?case by simp
qed

lemma retry_loop_exhausted:
  "fails_first sleep action d k w = Some wk \<Longrightarrow> action wk = (Inl e, w') \<Longrightarrow> attempt + int k = N
   \<Longrightarrow> retry_loop sleep action N d attempt le calls w = (Inl e, Suc (calls + k), w')"
proof (induction k arbitrary: attempt le calls w)
  case 0
  then have "retry_loop sleep action N d attempt le calls w
        = retry_loop sleep action N d (N + 1) e (Suc calls) w'"
    by (subst retry_loop.simps) simp
  also have "\<dots> = (Inl e, Suc calls, w')"
    by (subst retry_loop.simps) simp
  finally show ?case by simp
next
  case (Suc k)
  from Suc.prems(1) obtain e1 w1 where a: "action w = (Inl e1, w1)"
    and f: "fails_first sleep action d k (sleep d w1) = Some wk"
    by (auto split: prod.splits sum.splits)
  from Suc.prems(3) have lt: "attempt < N" and le': "(attempt + 1) + int k = N" by simp_all
  have "retry_loop sleep action N d attempt le calls w
        = retry_loop sleep action N d (attempt + 1) e1 (Suc calls) (sleep d w1)"
    using a lt by (subst retry_loop.simps) simp
  also have "\<dots> = (Inl e, Suc (Suc calls + k), w')"
    by (rule Suc.IH [OF f Suc.prems(2) le'])
  finally show ?case by simp
qed

lemma retry_once: "retry sleep action 1 d w = (fst (action w), 1, snd (action w))"
proof -
  obtain r w1 where a: "action w = (r, w1)" by (cases "action w")
  show ?thesis
  proof (cases r)
    case (Inr v)
    with a show ?thesis unfolding retry_def by (subst retry_loop.simps) simp
  next
    case (Inl e)
    with a have "retry_loop sleep action 1 d 1 Undefined 0 w = retry_loop sleep action 1 d 2 e 1 w1"
      by (subst retry_loop.simps) simp
    also have "\<dots> = (Inl e, 1, w1)" by (subst retry_loop.simps) simp
    finally show ?thesis using a Inl by (simp add: retry_def)
  qed
qed

subsection \<open>Number of invocations\<close>

text \<open>
  C2. For every action and every \<open>maxAttempts = N \<ge> 1\<close>, \<open>retry\<close> invokes the action
  at most \<open>N\<close> times; if the action fails on exactly its first \<open>K\<close> invocations
  (\<open>K < N\<close>) and succeeds on the next, \<open>retry\<close> returns that success after exactly
  \<open>K + 1\<close> invocations; and with \<open>N = 1\<close> the action is invoked exactly once and no
  delay is slept, whatever the outcome.
\<close>

theorem retry_invocations:
  "1 \<le> N \<Longrightarrow>
     fst (snd (retry sleep action N delayMs w)) \<le> nat N
     \<and> (int K < N \<and> fails_first sleep action delayMs K w = Some wK \<and> action wK = (Inr v, w')
          \<longrightarrow> retry sleep action N delayMs w = (Inr v, Suc K, w'))
     \<and> (N = 1 \<longrightarrow> retry sleep action N delayMs w = (fst (action w), 1, snd (action w)))"
proof (intro conjI impI)
  assume "1 \<le> N"
  show "fst (snd (retry sleep action N delayMs w)) \<le> nat N"
    using retry_loop_calls_le [of sleep action N delayMs 1 Undefined 0 w]
    by (simp add: retry_def)
next
  assume "int K < N \<and> fails_first sleep action delayMs K w = Some wK \<and> action wK = (Inr v, w')"
  then show "retry sleep action N delayMs w = (Inr v, Suc K, w')"
    using retry_loop_succeeds_after [of sleep action delayMs K w wK v w' 1 N Undefined 0]
    by (simp add: retry_def)
next
  assume "N = 1"
  then show "retry sleep action N delayMs w = (fst (action w), 1, snd (action w))"
    by (simp add: retry_once)
qed

text \<open>
  An instance of C2: an action that fails twice, retried with \<open>maxAttempts = 3\<close> and a
  delay of 100 ms, succeeds on the third invocation after 200 ms of delays; with
  \<open>maxAttempts = 1\<close> it is invoked once.
\<close>

theorem retry_invocations_witness:
  "(1::int) \<le> 3 \<and> int 2 < 3
   \<and> fails_first timer_sleep (flaky 2) 100 2 (0, 0) = Some (2, 200)
   \<and> flaky 2 (2, 200) = (Inr ''ok'', (3, 200))
   \<and> fst (snd (retry timer_sleep (flaky 2) 3 100 (0, 0))) \<le> nat 3
   \<and> retry timer_sleep (flaky 2) 3 100 (0, 0) = (Inr ''ok'', 3, (3, 200))
   \<and> retry timer_sleep (flaky 2) 1 100 (0, 0) = (Inl (Other 0), 1, (1, 0))"
  using retry_invocations [of 3 timer_sleep "flaky 2" 100 "(0, 0)" 2 "(2, 200)" "''ok''" "(3, 200)"]
    retry_invocations [of 1 timer_sleep "flaky 2" 100 "(0, 0)" 0 "(0, 0)" "''ok''" "(3, 200)"]
  by (simp add: numeral_2_eq_2 flaky_def timer_sleep_def)

subsection \<open>Exhausted attempts\<close>

text \<open>
  C5 (as the code has it). Whenever every one of the \<open>N \<ge> 1\<close> attempts fails, \<open>retry\<close>
  throws the value the action threw on its last invocation, as it is: no wrapper, no
  attempt count. It has invoked the action \<open>N\<close> times, slept no delay after the last
  failure, and does not return normally.
\<close>

theorem retry_exhausted_throws_last_error:
  "1 \<le> N \<Longrightarrow> fails_first sleep action delayMs (nat (N - 1)) w = Some wl \<Longrightarrow> action wl = (Inl e, w')
   \<Longrightarrow> retry sleep action N delayMs w = (Inl e, nat N, w')"
  using retry_loop_exhausted [of sleep action delayMs "nat (N - 1)" w wl e w' 1 N Undefined 0]
  by (simp add: retry_def)

text \<open>An instance of C5 (as the code has it): three attempts, all failing.\<close>

theorem retry_exhausted_witness:
  "(1::int) \<le> 3
   \<and> fails_first timer_sleep (flaky 5) 100 (nat (3 - 1)) (0, 0) = Some (2, 200)
   \<and> flaky 5 (2, 200) = (Inl (Other 2), (3, 200))
   \<and> retry timer_sleep (flaky 5) 3 100 (0, 0) = (Inl (Other 2), 3, (3, 200))"
  using retry_exhausted_throws_last_error [of 3 timer_sleep "flaky 5" 100 "(0, 0)" "(2, 200)" "Other 2" "(3, 200)"]
  by (simp add: numeral_2_eq_2 flaky_def timer_sleep_def)

text \<open>
  C5 (as the spec has it) fails: with two attempts that both fail, what \<open>retry\<close> throws is
  the very value of the second failure, \<open>Other 1\<close>, not an error object wrapping it.
\<close>

theorem retry_exhausted_raw_error:
  "fst (retry timer_sleep (flaky 5) 2 100 (0, 0)) = Inl (Other 1)"
  by (simp add: retry_def retry_loop.simps flaky_def timer_sleep_def)

subsection \<open>No attempt at all\<close>

text \<open>
  C10. When \<open>retry\<close> is called with \<open>maxAttempts < 1\<close>, the loop body never runs: the
  action is not invoked, the world is untouched, and the value thrown is \<open>undefined\<close>,
  the initial value of \<open>lastError\<close>, not an \<open>Error\<close> object.
\<close>

theorem retry_no_attempts:
  "maxAttempts < 1 \<Longrightarrow> retry sleep action maxAttempts delayMs w = (Inl Undefined, 0, w)"
  unfolding retry_def by (subst retry_loop.simps) simp


text \<open>An instance of C10: \<open>maxAttempts = 0\<close>.\<close>

theorem retry_no_attempts_witness:
  "(0::int) < 1 \<and> retry timer_sleep (flaky 0) 0 100 (0, 0) = (Inl Undefined, 0, (0, 0))"
  using retry_no_attempts [of 0 timer_sleep "flaky 0" 100 "(0, 0)"] by simp


section \<open>Properties of polling\<close>

subsection \<open>Auxiliary facts\<close>

lemma waitForCondition_loop_throw:
  "polls_false now sleep condition timeout interval start k w = Some wk
   \<Longrightarrow> now wk - start < timeout \<Longrightarrow> condition wk = (Inl e, w') \<Longrightarrow> k < fuel
   \<Longrightarrow> waitForCondition_loop fuel now sleep condition timeout interval start w = Some (Inl e, w')"
proof (induction k arbitrary: fuel w)
  case 0
  then obtain f where "fuel = Suc f" by (cases fuel) auto
  with 0 show ?case by simp
next
  case (Suc k)
  then obtain f where f: "fuel = Suc f" "k < f" by (cases fuel) auto
  from Suc.prems(1) obtain w1 where t: "now w - start < timeout"
    and c: "condition w = (Inr False, w1)"
    and p: "polls_false now sleep condition timeout interval start k (sleep interval w1) = Some wk"
    by (auto split: if_splits prod.splits sum.splits bool.splits)
  from Suc.IH [OF p Suc.prems(2) Suc.prems(3) f(2)] t c f(1) show ?case by simp
qed

lemma waitForCondition_loop_timeout:
  "polls_false now sleep condition timeout interval start k w = Some wk
   \<Longrightarrow> \<not> now wk - start < timeout \<Longrightarrow> k < fuel
   \<Longrightarrow> waitForCondition_loop fuel now sleep condition timeout interval start w
       = Some (Inl (Error (''Condition not met within '' @ string_of_int timeout @ ''ms'')), wk)"
proof (induction k arbitrary: fuel w)
  case 0
  then obtain f where "fuel = Suc f" by (cases fuel) auto
  with 0 show ?case by simp
next
  case (Suc k)
  then obtain f where f: "fuel = Suc f" "k < f" by (cases fuel) auto
  from Suc.prems(1) obtain w1 where t: "now w - start < timeout"
    and c: "condition w = (Inr False, w1)"
    and p: "polls_false now sleep condition timeout interval start k (sleep interval w1) = Some wk"
    by (auto split: if_splits prod.splits sum.splits bool.splits)
  from Suc.IH [OF p Suc.prems(2) f(2)] t c f(1) show ?case by simp
qed

lemma string_of_int_1000: "string_of_int 1000 = ''1000''"
  by (simp add: string_of_int_def string_of_nat.simps digit_def)

subsection \<open>A condition that throws\<close>

text \<open>
  C3 (as the code has it). If an evaluation of the condition throws while the timeout has
  not elapsed, after any number of evaluations that resolved to \<open>false\<close>,
  \<open>waitForCondition\<close> stops polling and throws that same value, in the world the
  evaluation left. When the timeout elapses after evaluations that all resolved to
  \<open>false\<close>, it throws \<open>Error("Condition not met within <timeout>ms")\<close>, which carries
  nothing else.
\<close>

theorem waitForCondition_propagates_throw:
  "(polls_false now sleep condition timeout interval (now w) k w = Some wk
      \<and> now wk - now w < timeout \<and> condition wk = (Inl e, w') \<and> k < fuel
      \<longrightarrow> waitForCondition fuel now sleep condition timeout interval w = Some (Inl e, w'))
   \<and> (polls_false now sleep condition timeout interval (now w) k w = Some wk
      \<and> \<not> now wk - now w < timeout \<and> k < fuel
      \<longrightarrow> waitForCondition fuel now sleep condition timeout interval w
            = Some (Inl (Error (''Condition not met within '' @ string_of_int timeout @ ''ms'')), wk))"
  unfolding waitForCondition_def Let_def
  using waitForCondition_loop_throw [of now sleep condition timeout interval "now w" k w wk e w' fuel]
    waitForCondition_loop_timeout [of now sleep condition timeout interval "now w" k w wk fuel]
  by blast

text \<open>
  Instances of C3 (as the code has it), with a timeout of 1000 ms and an interval of
  500 ms: a probe that resolves to \<open>false\<close> once and then throws, and a condition that is
  never met.
\<close>

theorem waitForCondition_propagates_throw_witness:
  "polls_false clock timer_sleep (broken_probe 1) 1000 500 (clock (0, 0)) 1 (0, 0) = Some (1, 500)
   \<and> clock (1, 500) - clock (0, 0) < 1000
   \<and> broken_probe 1 (1, 500) = (Inl (Error ''socket hang up''), (2, 500))
   \<and> (1::nat) < 5
   \<and> waitForCondition 5 clock timer_sleep (broken_probe 1) 1000 500 (0, 0)
       = Some (Inl (Error ''socket hang up''), (2, 500))
   \<and> polls_false clock timer_sleep never_ready 1000 500 (clock (0, 0)) 2 (0, 0) = Some (2, 1000)
   \<and> \<not> clock (2, 1000) - clock (0, 0) < 1000
   \<and> (2::nat) < 5
   \<and> waitForCondition 5 clock timer_sleep never_ready 1000 500 (0, 0)
       = Some (Inl (Error ''Condition not met within 1000ms''), (2, 1000))"
  using waitForCondition_propagates_throw
          [of clock timer_sleep "broken_probe 1" 1000 500 "(0, 0)" 1 "(1, 500)" "Error ''socket hang up''" "(2, 500)" 5]
        waitForCondition_propagates_throw
          [of clock timer_sleep never_ready 1000 500 "(0, 0)" 2 "(2, 1000)" "Error []" "(0, 0)" 5]
  by (simp add: numeral_2_eq_2 broken_probe_def never_ready_def clock_def timer_sleep_def string_of_int_1000)

text \<open>
  C3 (as the spec has it) fails: a condition that throws on its first evaluation, at time
  0 of a timeout of 1000 ms, ends the call at once. The value thrown is the condition's
  own, the condition has been evaluated once and the clock has not moved.
\<close>

theorem waitForCondition_throw_not_swallowed:
  "waitForCondition 5 clock timer_sleep (broken_probe 0) 1000 500 (0, 0)
     = Some (Inl (Error ''socket hang up''), (1, 0))"
  by (simp add: waitForCondition_def numeral_eq_Suc broken_probe_def clock_def)

section \<open>Properties of structure validation\<close>

lemma validateJSONStructure_loop_find:
  "validateJSONStructure_loop toHaveProperty body keys =
     (case find (\<lambda>key. toHaveProperty body key \<noteq> Has) keys of
        None \<Rightarrow> Inr ()
      | Some key \<Rightarrow> check_failure key (toHaveProperty body key))"
proof (induction keys)
  case Nil
  show ?case by simp
next
  case (Cons key keys)
  then show ?case by (cases "toHaveProperty body key") simp_all
qed

text \<open>
  C4 (as the code has it). \<open>validateJSONStructure\<close> reports a failed check by throwing.
  It checks the expected keys in order and stops at the first key whose check does not
  find the property: when the body lacks that key it throws an error whose message names
  that key alone, and when the matcher cannot be applied to the body (a \<open>null\<close> body)
  it throws the matcher's own error. It returns normally when every expected key is
  found. A body that cannot be parsed makes it throw what \<open>response.json()\<close> threw.
\<close>

theorem validateJSONStructure_throws_first_missing:
  "validateJSONStructure json toHaveProperty response expectedKeys =
     (case json response of
        Inl error \<Rightarrow> Inl error
      | Inr body \<Rightarrow>
          (case find (\<lambda>key. toHaveProperty body key \<noteq> Has) expectedKeys of
             None \<Rightarrow> Inr ()
           | Some key \<Rightarrow>
               (case toHaveProperty body key of
                  Lacks \<Rightarrow> Inl (Error (''Missing key: '' @ key))
                | Unusable error \<Rightarrow> Inl error
                | Has \<Rightarrow> Inr ())))"
proof -
  have "check_failure key m =
          (case m of Lacks \<Rightarrow> Inl (Error (''Missing key: '' @ key))
                   | Unusable error \<Rightarrow> Inl error | Has \<Rightarrow> Inr ())" for key and m :: "'a matched"
    by (cases m) simp_all
  then show ?thesis
    by (simp add: validateJSONStructure_def validateJSONStructure_loop_find
          split: sum.splits option.splits)
qed

text \<open>
  C4 (as the spec has it) fails: for a body holding \<open>id\<close> only and the expected keys
  \<open>id\<close>, \<open>name\<close> and \<open>price\<close>, two keys are missing, and the call throws one error
  that names \<open>name\<close>.
\<close>

theorem validateJSONStructure_two_missing:
  "validateJSONStructure (\<lambda>r. Inr r) (\<lambda>body key. if key \<in> set body then Has else Lacks)
     [''id''] [''id'', ''name'', ''price'']
     = Inl (Error ''Missing key: name'')"
  by (simp add: validateJSONStructure_def)

section \<open>Properties of URL construction\<close>

subsection \<open>The serializer in closed form\<close>

lemma encode_tuple_nonempty: "encode_tuple t \<noteq> []"
  by (simp add: encode_tuple_def)

lemma serialize_step_first: "serialize_step [] t = encode_tuple t"
  by (simp add: serialize_step_def encode_tuple_def)

lemma serialize_step_next: "out \<noteq> [] \<Longrightarrow> serialize_step out t = out @ ''&'' @ encode_tuple t"
  by (simp add: serialize_step_def encode_tuple_def)

lemma serialize_step_nonempty: "serialize_step out t \<noteq> []"
  by (simp add: serialize_step_def)

lemma foldl_serialize_step:
  "out \<noteq> [] \<Longrightarrow> foldl serialize_step out ts = out @ more_tuples ts"
proof (induction ts arbitrary: out)
  case Nil
  then show ?case by (simp add: more_tuples_def)
next
  case (Cons t ts)
  have "foldl serialize_step out (t # ts) = foldl serialize_step (serialize_step out t) ts"
    by simp
  also have "\<dots> = serialize_step out t @ more_tuples ts"
    by (rule Cons.IH) (rule serialize_step_nonempty)
  also have "\<dots> = out @ more_tuples (t # ts)"
    using Cons.prems by (simp add: serialize_step_next more_tuples_def)
  finally show ?case .
qed

lemma urlencoded_serialize_Nil: "urlencoded_serialize [] = []"
  by (simp add: urlencoded_serialize_def)

lemma urlencoded_serialize_Cons:
  "urlencoded_serialize (t # ts) = encode_tuple t @ more_tuples ts"
proof -
  have "urlencoded_serialize (t # ts) = foldl serialize_step (serialize_step [] t) ts"
    by (simp add: urlencoded_serialize_def)
  also have "\<dots> = serialize_step [] t @ more_tuples ts"
    by (rule foldl_serialize_step) (rule serialize_step_nonempty)
  finally show ?thesis by (simp only: serialize_step_first)
qed

subsection \<open>Characters of an encoded string\<close>

lemma hex_digit_encoded: "n < 16 \<Longrightarrow> hex_digit n \<in> encoded_chars"
proof -
  assume "n < 16"
  then have "hex_digit n \<in> set ''0123456789ABCDEF''"
    unfolding hex_digit_def by (intro nth_mem) simp
  moreover have "set ''0123456789ABCDEF'' \<subseteq> encoded_chars"
    by (simp add: encoded_chars_def)
  ultimately show ?thesis by blast
qed

lemma urlencode_byte_chars: "set (urlencode_byte c) \<subseteq> encoded_chars"
proof -
  have "(of_char c :: nat) div 16 < 16"
    using nat_of_char_less_256 [of c] by arith
  moreover have "(of_char c :: nat) mod 16 < 16" by simp
  moreover have "unreserved c \<Longrightarrow> c \<in> encoded_chars"
    by (auto simp: unreserved_def encoded_chars_def)
  moreover have "CHR ''+'' \<in> encoded_chars" "CHR ''%'' \<in> encoded_chars"
    by (simp_all add: encoded_chars_def)
  ultimately show ?thesis
    by (simp add: urlencode_byte_def hex_digit_encoded)
qed

lemma urlencode_chars: "set (urlencode s) \<subseteq> encoded_chars"
  using urlencode_byte_chars by (auto simp: urlencode_def)

lemma separators_not_encoded:
  "CHR ''&'' \<notin> encoded_chars" "CHR ''='' \<notin> encoded_chars" "CHR ''?'' \<notin> encoded_chars"
  by (simp_all add: encoded_chars_def)


subsection \<open>The percent-encoding is injective\<close>

lemma hex_digit_inj: "m < 16 \<Longrightarrow> n < 16 \<Longrightarrow> hex_digit m = hex_digit n \<Longrightarrow> m = n"
proof -
  assume a: "m < 16" "n < 16" "hex_digit m = hex_digit n"
  have d: "distinct ''0123456789ABCDEF''" by simp
  have l: "length ''0123456789ABCDEF'' = 16" by simp
  from a show ?thesis
    unfolding hex_digit_def using nth_eq_iff_index_eq [OF d, of m n] l by simp
qed

lemma hex_pair_inj:
  assumes "hex_digit (of_char a div 16) = hex_digit (of_char b div 16)"
    and "hex_digit (of_char a mod 16) = hex_digit (of_char b mod 16)"
  shows "a = b"
proof -
  have la: "(of_char a :: nat) div 16 < 16" using nat_of_char_less_256 [of a] by arith
  have lb: "(of_char b :: nat) div 16 < 16" using nat_of_char_less_256 [of b] by arith
  have q: "(of_char a :: nat) div 16 = of_char b div 16"
    by (rule hex_digit_inj [OF la lb assms(1)])
  have r: "(of_char a :: nat) mod 16 = of_char b mod 16"
    by (rule hex_digit_inj [OF _ _ assms(2)]) simp_all
  have "(of_char a :: nat) = of_char b"
    using q r by (metis div_mult_mod_eq)
  then show ?thesis by (rule of_char_eqI)
qed

lemma unreserved_not_marker: "unreserved c \<Longrightarrow> c \<noteq> CHR ''+'' \<and> c \<noteq> CHR ''%''"
  by (auto simp: unreserved_def)

lemma space_not_unreserved: "\<not> unreserved CHR '' ''"
  by (simp add: unreserved_def)

lemma urlencode_byte_append_inj:
  "urlencode_byte a @ xs = urlencode_byte b @ ys \<Longrightarrow> a = b \<and> xs = ys"
  using unreserved_not_marker [of a] unreserved_not_marker [of b]
  by (auto simp: urlencode_byte_def split: if_splits intro: hex_pair_inj)

lemma urlencode_byte_nonempty: "urlencode_byte c \<noteq> []"
  by (simp add: urlencode_byte_def)

lemma urlencode_inj: "urlencode s = urlencode t \<Longrightarrow> s = t"
proof (induction s arbitrary: t)
  case Nil
  then show ?case
    by (cases t) (simp_all add: urlencode_def urlencode_byte_nonempty)
next
  case (Cons a s)
  show ?case
  proof (cases t)
    case Nil
    with Cons.prems show ?thesis by (simp add: urlencode_def urlencode_byte_nonempty)
  next
    case (Cons b t')
    with Cons.prems have "urlencode_byte a @ urlencode s = urlencode_byte b @ urlencode t'"
      by (simp add: urlencode_def)
    then have "a = b \<and> urlencode s = urlencode t'" by (rule urlencode_byte_append_inj)
    with Cons.IH [of t'] Cons show ?thesis by simp
  qed
qed

subsection \<open>Reading a query string back\<close>

lemma split_at_separator:
  assumes "c \<notin> set a" "c \<notin> set b" "a @ c # r = b @ c # s"
  shows "a = b \<and> r = s"
proof -
  have "takeWhile (\<lambda>x. x \<noteq> c) (a @ c # r) = a"
    using assms(1) by (auto simp: takeWhile_tail)
  moreover have "takeWhile (\<lambda>x. x \<noteq> c) (b @ c # s) = b"
    using assms(2) by (auto simp: takeWhile_tail)
  ultimately have "a = b" using assms(3) by simp
  with assms(3) show ?thesis by simp
qed

lemma encode_tuple_no_amp: "CHR ''&'' \<notin> set (encode_tuple t)"
  using urlencode_chars [of "fst t"] urlencode_chars [of "snd t"] separators_not_encoded(1)
  by (auto simp: encode_tuple_def)

lemma encode_tuple_inj: "encode_tuple t = encode_tuple u \<Longrightarrow> t = u"
proof -
  assume e: "encode_tuple t = encode_tuple u"
  have "CHR ''='' \<notin> set (urlencode (fst t))" "CHR ''='' \<notin> set (urlencode (fst u))"
    using urlencode_chars separators_not_encoded(2) by blast+
  then have "urlencode (fst t) = urlencode (fst u) \<and> urlencode (snd t) = urlencode (snd u)"
    using e unfolding encode_tuple_def by (intro split_at_separator [of "CHR ''=''"]) simp_all
  then show ?thesis by (auto intro: prod_eqI dest: urlencode_inj)
qed

lemma more_tuples_Nil: "more_tuples [] = []"
  by (simp add: more_tuples_def)

lemma more_tuples_Cons: "more_tuples (t # ts) = CHR ''&'' # encode_tuple t @ more_tuples ts"
  by (simp add: more_tuples_def)

lemma first_tuple:
  "takeWhile (\<lambda>x. x \<noteq> CHR ''&'') (encode_tuple t @ more_tuples ts) = encode_tuple t"
proof (cases ts)
  case Nil
  then show ?thesis using encode_tuple_no_amp [of t] by (auto simp: more_tuples_Nil)
next
  case (Cons u us)
  then show ?thesis using encode_tuple_no_amp [of t]
    by (auto simp: more_tuples_Cons takeWhile_tail)
qed

lemma tuples_append_inj:
  assumes "encode_tuple t @ more_tuples ts = encode_tuple u @ more_tuples us"
  shows "t = u \<and> more_tuples ts = more_tuples us"
proof -
  have "encode_tuple t = encode_tuple u"
    using first_tuple [of t ts] first_tuple [of u us] assms by simp
  with assms show ?thesis by (auto dest: encode_tuple_inj)
qed

lemma more_tuples_inj: "more_tuples ts = more_tuples us \<Longrightarrow> ts = us"
proof (induction ts arbitrary: us)
  case Nil
  then show ?case by (cases us) (simp_all add: more_tuples_Nil more_tuples_Cons)
next
  case (Cons t ts)
  show ?case
  proof (cases us)
    case Nil
    with Cons.prems show ?thesis by (simp add: more_tuples_Nil more_tuples_Cons)
  next
    case (Cons u us')
    with Cons.prems have "encode_tuple t @ more_tuples ts = encode_tuple u @ more_tuples us'"
      by (simp add: more_tuples_Cons)
    then have "t = u \<and> more_tuples ts = more_tuples us'" by (rule tuples_append_inj)
    with Cons.IH [of us'] Cons show ?thesis by simp
  qed
qed

lemma urlencoded_serialize_inj: "urlencoded_serialize ts = urlencoded_serialize us \<Longrightarrow> ts = us"
proof (cases ts; cases us)
  fix t ts' u us'
  assume c: "ts = t # ts'" "us = u # us'" and e: "urlencoded_serialize ts = urlencoded_serialize us"
  then have "t = u \<and> more_tuples ts' = more_tuples us'"
    by (intro tuples_append_inj) (simp add: urlencoded_serialize_Cons)
  with c show "ts = us" by (auto dest: more_tuples_inj)
qed (simp_all add: urlencoded_serialize_Nil urlencoded_serialize_Cons encode_tuple_nonempty)

lemma urlencoded_serialize_chars:
  "set (urlencoded_serialize ts) \<subseteq> insert CHR ''&'' (insert CHR ''='' encoded_chars)"
proof -
  have t: "set (encode_tuple t) \<subseteq> insert CHR ''&'' (insert CHR ''='' encoded_chars)" for t
    using urlencode_chars [of "fst t"] urlencode_chars [of "snd t"]
    by (auto simp: encode_tuple_def)
  have m: "set (more_tuples us) \<subseteq> insert CHR ''&'' (insert CHR ''='' encoded_chars)" for us
    using t by (induction us) (auto simp: more_tuples_Nil more_tuples_Cons)
  show ?thesis
    using t m by (cases ts) (auto simp: urlencoded_serialize_Nil urlencoded_serialize_Cons)
qed

lemma query_string_no_question_mark: "CHR ''?'' \<notin> set (URLSearchParams_toString ps)"
  using urlencoded_serialize_chars
          [of "map (\<lambda>(key, value). (key, ToString value)) (own_entries (object_of ps))"]
    separators_not_encoded(3)
  by (auto simp: URLSearchParams_toString_def)


subsection \<open>Records without array-index keys\<close>

lemma set_property_new:
  "key \<notin> fst ` set obj \<Longrightarrow> set_property obj key value = obj @ [(key, value)]"
  by (induction obj) auto

lemma foldl_set_property_distinct:
  "distinct (map fst (obj @ ps)) \<Longrightarrow>
   foldl (\<lambda>obj (key, value). set_property obj key value) obj ps = obj @ ps"
proof (induction ps arbitrary: obj)
  case Nil
  show ?case by simp
next
  case (Cons p ps)
  obtain key v where p: "p = (key, v)" by (cases p)
  from Cons.prems p have new: "key \<notin> fst ` set obj" by auto
  from Cons.prems p have d: "distinct (map fst ((obj @ [(key, v)]) @ ps))" by simp
  show ?case
    using Cons.IH [OF d] by (simp add: p set_property_new [OF new])
qed

lemma object_of_distinct: "distinct (map fst ps) \<Longrightarrow> object_of ps = ps"
  using foldl_set_property_distinct [of "[]" ps] by (simp add: object_of_def)

lemma own_entries_no_index:
  "list_all (\<lambda>key. \<not> is_array_index key) (map fst obj) \<Longrightarrow> own_entries obj = obj"
proof -
  assume "list_all (\<lambda>key. \<not> is_array_index key) (map fst obj)"
  then have n: "\<forall>entry \<in> set obj. \<not> is_array_index (fst entry)"
    by (simp add: list_all_iff)
  then have "filter (\<lambda>entry. is_array_index (fst entry)) obj = []"
    by (simp add: filter_empty_conv)
  moreover from n have "filter (\<lambda>entry. \<not> is_array_index (fst entry)) obj = obj"
    by (simp add: filter_id_conv)
  ultimately show ?thesis by (simp add: own_entries_def)
qed

lemma buildURL_closed_form:
  "buildURL baseURL endpoint (Some ps) =
     baseURL @ endpoint @ ''?'' @
       (case string_entries ps of [] \<Rightarrow> [] | t # ts \<Rightarrow> encode_tuple t @ more_tuples ts)"
  by (cases "string_entries ps")
     (simp_all add: buildURL_def URLSearchParams_toString_def string_entries_def
        urlencoded_serialize_Nil urlencoded_serialize_Cons)

lemma buildURL_eq_iff:
  "buildURL baseURL endpoint (Some ps) = buildURL baseURL endpoint (Some qs)
   \<longleftrightarrow> string_entries ps = string_entries qs"
  by (auto simp: buildURL_def URLSearchParams_toString_def string_entries_def
        dest: urlencoded_serialize_inj)

lemma string_entries_insertion_order:
  "distinct (map fst ps) \<Longrightarrow> list_all (\<lambda>key. \<not> is_array_index key) (map fst ps)
   \<Longrightarrow> string_entries ps = map (\<lambda>(key, value). (key, ToString value)) ps"
  by (simp add: string_entries_def object_of_distinct own_entries_no_index)

lemma not_index_limit_sort:
  "list_all (\<lambda>key. \<not> is_array_index key) (map fst [(''limit'', PNum 5), (''sort'', PStr ''name'')])"
  by code_simp

lemma url_limit_sort:
  "buildURL ''https://shop.example'' ''/products'' (Some [(''limit'', PNum 5), (''sort'', PStr ''name'')])
     = ''https://shop.example/products?limit=5&sort=name''"
  by code_simp

lemma url_sort_limit:
  "buildURL ''https://shop.example'' ''/products'' (Some [(''sort'', PStr ''name''), (''limit'', PNum 5)])
     = ''https://shop.example/products?sort=name&limit=5''"
  by code_simp

lemma entries_index_keys:
  "string_entries [(''b'', PStr ''x''), (''10'', PNum 1), (''2'', PNum 2), (''b'', PStr ''y''), (''01'', PNum 3)]
     = [(''2'', ''2''), (''10'', ''1''), (''b'', ''y''), (''01'', ''3'')]"
  by (simp add: string_entries_def object_of_def own_entries_def is_array_index_def
        index_value_def string_of_int_def string_of_nat.simps digit_def)

lemma search_query: "URLSearchParams_toString [(''search'', PStr ''mac book'')] = ''search=mac+book''"
  by code_simp

subsection \<open>Order of the query parameters\<close>

text \<open>
  C8 (as the code has it). \<open>buildURL\<close> writes the query parameters in the enumeration
  order of the record and sorts nothing else: the query string is the encoded pairs
  \<open>name=value\<close> of the entries in that order, joined with \<open>&\<close>. Two records give the
  same URL exactly when their enumerations list the same keys with the same values (as
  strings) in the same order. For a record none of whose keys is an array index, the
  enumeration order is the insertion order.
\<close>

theorem buildURL_query_order:
  "buildURL baseURL endpoint (Some ps) =
     baseURL @ endpoint @ ''?'' @
       (case string_entries ps of [] \<Rightarrow> [] | t # ts \<Rightarrow> encode_tuple t @ more_tuples ts)
   \<and> (buildURL baseURL endpoint (Some ps) = buildURL baseURL endpoint (Some qs)
        \<longleftrightarrow> string_entries ps = string_entries qs)
   \<and> (distinct (map fst ps) \<and> list_all (\<lambda>key. \<not> is_array_index key) (map fst ps)
        \<longrightarrow> string_entries ps = map (\<lambda>(key, value). (key, ToString value)) ps)"
  using buildURL_closed_form [of baseURL endpoint ps] buildURL_eq_iff [of baseURL endpoint ps qs]
    string_entries_insertion_order [of ps]
  by blast

text \<open>
  An instance of C8 (as the code has it): two keys that are not array indices keep their
  insertion order. In the second record the array indices \<open>2\<close> and \<open>10\<close> come first, in
  numeric order, \<open>b\<close> keeps the place of its first assignment with its last value, and
  \<open>01\<close> is no array index.
\<close>

theorem buildURL_query_order_witness:
  "distinct (map fst [(''limit'', PNum 5), (''sort'', PStr ''name'')])
   \<and> list_all (\<lambda>key. \<not> is_array_index key) (map fst [(''limit'', PNum 5), (''sort'', PStr ''name'')])
   \<and> string_entries [(''limit'', PNum 5), (''sort'', PStr ''name'')]
       = [(''limit'', ''5''), (''sort'', ''name'')]
   \<and> string_entries
         [(''b'', PStr ''x''), (''10'', PNum 1), (''2'', PNum 2), (''b'', PStr ''y''), (''01'', PNum 3)]
       = [(''2'', ''2''), (''10'', ''1''), (''b'', ''y''), (''01'', ''3'')]"
  using buildURL_query_order [of "[]" "[]" "[(''limit'', PNum 5), (''sort'', PStr ''name'')]" "[]"]
    not_index_limit_sort entries_index_keys
  by (simp add: string_of_int_def string_of_nat.simps digit_def)

text \<open>
  C8 (as the spec has it) fails: the same mapping of keys to values, entered in the two
  possible orders, gives two different query strings.
\<close>

theorem buildURL_order_dependent:
  "map_of [(''limit'', PNum 5), (''sort'', PStr ''name'')]
     = map_of [(''sort'', PStr ''name''), (''limit'', PNum 5)]
   \<and> buildURL ''https://shop.example'' ''/products''
         (Some [(''limit'', PNum 5), (''sort'', PStr ''name'')])
       \<noteq> buildURL ''https://shop.example'' ''/products''
           (Some [(''sort'', PStr ''name''), (''limit'', PNum 5)])"
proof
  show "map_of [(''limit'', PNum 5), (''sort'', PStr ''name'')]
     = map_of [(''sort'', PStr ''name''), (''limit'', PNum 5)]"
    by (auto simp: fun_eq_iff)
  show "buildURL ''https://shop.example'' ''/products''
         (Some [(''limit'', PNum 5), (''sort'', PStr ''name'')])
       \<noteq> buildURL ''https://shop.example'' ''/products''
           (Some [(''sort'', PStr ''name''), (''limit'', PNum 5)])"
    unfolding url_limit_sort url_sort_limit by simp
qed

subsection \<open>A second question mark\<close>

text \<open>
  C9. Whenever a query-parameter record is supplied, \<open>buildURL\<close> appends \<open>?\<close> and the
  serialized parameters to the endpoint, whether or not the endpoint holds a \<open>?\<close>
  already. The serialized parameters hold no \<open>?\<close>, so the URL has one \<open>?\<close> more than
  base URL and endpoint together: at least two when the endpoint has one, as for every
  call with parameters to an endpoint \<open>/index.php?route=...\<close>, for example
  \<open>ProductsAPI.getAllProducts\<close>.
\<close>

theorem buildURL_appends_question_mark:
  "buildURL baseURL endpoint (Some ps) = baseURL @ endpoint @ ''?'' @ URLSearchParams_toString ps
   \<and> count_list (buildURL baseURL endpoint (Some ps)) CHR ''?''
       = count_list baseURL CHR ''?'' + count_list endpoint CHR ''?'' + 1
   \<and> (CHR ''?'' \<in> set endpoint \<longrightarrow> 2 \<le> count_list (buildURL baseURL endpoint (Some ps)) CHR ''?'')
   \<and> count_list (getAllProducts_url baseURL params) CHR ''?'' = count_list baseURL CHR ''?'' + 2"
proof -
  have q: "count_list (URLSearchParams_toString qs) CHR ''?'' = 0" for qs
    using query_string_no_question_mark [of qs] by (simp add: count_list_0_iff)
  have b: "buildURL baseURL endpoint (Some qs) = baseURL @ endpoint @ ''?'' @ URLSearchParams_toString qs"
    for endpoint qs
    by (simp add: buildURL_def)
  have c: "count_list (buildURL baseURL endpoint (Some qs)) CHR ''?''
       = count_list baseURL CHR ''?'' + count_list endpoint CHR ''?'' + 1" for endpoint qs
    by (simp add: b q)
  have e: "CHR ''?'' \<in> set endpoint \<longrightarrow> 2 \<le> count_list (buildURL baseURL endpoint (Some ps)) CHR ''?''"
  proof
    assume "CHR ''?'' \<in> set endpoint"
    then have "1 \<le> count_list endpoint CHR ''?''"
      using count_list_0_iff [of endpoint "CHR ''?''"] by simp
    then show "2 \<le> count_list (buildURL baseURL endpoint (Some ps)) CHR ''?''"
      unfolding c by linarith
  qed
  have g: "count_list (getAllProducts_url baseURL params) CHR ''?'' = count_list baseURL CHR ''?'' + 2"
    unfolding getAllProducts_url_def c by simp
  show ?thesis using b [of endpoint ps] c [of endpoint ps] e g by blast
qed

text \<open>An instance of C9: a product search, and the product list.\<close>

theorem buildURL_appends_question_mark_witness:
  "CHR ''?'' \<in> set ''/index.php?route=product/search''
   \<and> buildURL ''https://shop.example'' ''/index.php?route=product/search''
         (Some [(''search'', PStr ''mac book'')])
       = ''https://shop.example/index.php?route=product/search?search=mac+book''
   \<and> 2 \<le> count_list
         (buildURL ''https://shop.example'' ''/index.php?route=product/search''
            (Some [(''search'', PStr ''mac book'')]))
         CHR ''?''
   \<and> count_list (getAllProducts_url ''https://shop.example'' None) CHR ''?'' = 2"
  using buildURL_appends_question_mark
          [of "''https://shop.example''" "''/index.php?route=product/search''"
              "[(''search'', PStr ''mac book'')]" None]
  by (simp add: search_query)

end
